theory Spec2Isabelle
  imports Complex_Main "HOL-Library.Sublist" "HOL-Library.AList"
begin

section \<open>Personal Library Manager: the catalogue in memory\<close>

text \<open>
  The program keeps one list of books. A book is the dictionary that \<open>add_book\<close>
  builds, with the five keys \<open>title\<close>, \<open>author\<close>, \<open>publication_year\<close>,
  \<open>genre\<close> and \<open>read\<close>; here it is a record with these five fields. Text is a
  \<open>string\<close>, each \<open>char\<close> read as the code point of the same number (0 to 255), and
  Python's unbounded integers are \<open>int\<close>.
\<close>

record book =
  title :: string
  author :: string
  publication_year :: int
  genre :: string
  read :: bool

text \<open>
  The Streamlit calls \<open>st.success\<close>, \<open>st.warning\<close> and \<open>st.error\<close> are the
  program's only output besides the file; each is recorded with its text.
\<close>

datatype message = Success string | Warning string | Error string

subsection \<open>Strings\<close>

text \<open>
  \<open>str.lower()\<close> on code points 0 to 255: the letters A to Z and the capital letters
  of the Latin-1 block (U+00C0 to U+00DE without the multiplication sign U+00D7) move up
  by 32, every other character stays.
\<close>

definition lower_char :: "char \<Rightarrow> char" where
  "lower_char c =
     (let n = (of_char c :: nat)
      in if (65 \<le> n \<and> n \<le> 90) \<or> (192 \<le> n \<and> n \<le> 222 \<and> n \<noteq> 215)
         then char_of (n + 32) else c)"

definition lower :: "string \<Rightarrow> string" where
  "lower s = map lower_char s"

text \<open>
  Python's \<open>k in s\<close> on strings: \<open>k\<close> occurs in \<open>s\<close> as a contiguous block. The
  scan tries every start position from the left.
\<close>

fun str_in :: "string \<Rightarrow> string \<Rightarrow> bool" where
  "str_in k [] = (k = [])"
| "str_in k (c # cs) = (prefix k (c # cs) \<or> str_in k cs)"

text \<open>The single quote of the f-strings.\<close>

definition quoted :: "string \<Rightarrow> string" where
  "quoted s = CHR 0x27 # s @ [CHR 0x27]"

subsection \<open>The operations\<close>

text \<open>
  Each operation takes the list as it is before the call. The ones that change the list
  in place (\<open>library.append\<close>, \<open>library[:] = ...\<close>) return the list as it is
  afterwards, together with the messages shown.
\<close>

definition add_book ::
  "book list \<Rightarrow> string \<Rightarrow> string \<Rightarrow> int \<Rightarrow> string \<Rightarrow> bool \<Rightarrow> book list \<times> message list" where
  "add_book library t a pub_year g read_status =
     (let bk = \<lparr>title = t, author = a, publication_year = pub_year,
                genre = g, read = read_status\<rparr>
      in (library @ [bk],
          [Success (''Added '' @ quoted t @ '' to the library.'')]))"

definition remove_book :: "book list \<Rightarrow> string \<Rightarrow> book list \<times> message list" where
  "remove_book library t =
     (let original_count = length library;
          library' = filter (\<lambda>bk. lower (title bk) \<noteq> lower t) library
      in if length library' < original_count
         then (library', [Success (''Removed '' @ quoted t @ '' from the library.'')])
         else (library', [Warning (''No book found with the title '' @ quoted t @ ''.'')]))"

text \<open>
  \<open>search_books\<close> builds a new list and assigns nothing to \<open>library\<close>: the model
  returns the results together with the list as the call leaves it.
\<close>

definition search_books :: "book list \<Rightarrow> string \<Rightarrow> book list \<times> book list" where
  "search_books library keyword =
     (let k = lower keyword;
          results = filter (\<lambda>bk. str_in k (lower (title bk)) \<or> str_in k (lower (author bk)))
                      library
      in (results, library))"

subsection \<open>Statistics\<close>

text \<open>
  Python's \<open>float\<close> is IEEE 754 binary64. A finite double is kept as the rational
  number it stands for. \<open>read_books / total_books\<close> (true division of two integers) and
  the product with \<open>100\<close> each give the double nearest to the exact result, a tie going
  to the one with an even significand.
\<close>

definition round_half_even :: "rat \<Rightarrow> int" where
  "round_half_even x =
     (let f = \<lfloor>x\<rfloor>; d = x - of_int f
      in if d < 1 / 2 then f
         else if 1 / 2 < d then f + 1
         else if even f then f else f + 1)"

text \<open>
  Rounding a number \<open>0 \<le> x < 2^53\<close>: it is doubled until it reaches \<open>2^52\<close>, so that the
  integers are the numbers with a 53-bit significand, rounded there and scaled back. The
  doubling stops after 1074 steps, where the subnormal numbers with their fixed spacing
  \<open>2^-1074\<close> begin.
\<close>

primrec round_scaled :: "nat \<Rightarrow> rat \<Rightarrow> rat" where
  "round_scaled 0 x = of_int (round_half_even x)"
| "round_scaled (Suc k) x =
     (if x < 4503599627370496 then round_scaled k (2 * x) / 2
      else of_int (round_half_even x))"

text \<open>
  Rounding a number from \<open>2^53\<close> on: it is halved until it is below \<open>2^53\<close>. After
  971 halvings the number is \<open>2^1024\<close> or more and overflows; the program never gets
  there, its numbers lie between 0 and 100.
\<close>

primrec round_large :: "nat \<Rightarrow> rat \<Rightarrow> rat" where
  "round_large 0 x = of_int (round_half_even x)"
| "round_large (Suc k) x =
     (if 9007199254740992 \<le> x then 2 * round_large k (x / 2)
      else of_int (round_half_even x))"

definition round_double :: "rat \<Rightarrow> rat" where
  "round_double x =
     (let a = \<bar>x\<bar>;
          r = (if a < 9007199254740992 then round_scaled 1074 a else round_large 971 a)
      in if x < 0 then - r else r)"

text \<open>
  The second component of the result is the integer \<open>0\<close> for the empty library and a
  \<open>float\<close> otherwise.
\<close>

datatype number = Integer int | Double rat

fun number_value :: "number \<Rightarrow> rat" where
  "number_value (Integer i) = of_int i"
| "number_value (Double x) = x"

definition display_statistics :: "book list \<Rightarrow> nat \<times> number" where
  "display_statistics library =
     (let total_books = length library
      in if total_books = 0 then (total_books, Integer 0)
         else
           (let read_books = length (filter read library);
                percent_read = round_double (round_double (of_nat read_books / of_nat total_books) * 100)
            in (total_books, Double percent_read)))"

section \<open>The library file\<close>

text \<open>
  \<open>save_library\<close> writes the list with \<open>json.dump(library, f, indent=4)\<close> and
  \<open>load_library\<close> reads it with \<open>json.load(f)\<close>. Both belong to Python's standard
  library and are modelled here from what they do: the encoder on lists of book
  dictionaries, which is what the program saves, the decoder on every text, since the
  file may hold anything.
\<close>

subsection \<open>Python values read from JSON\<close>








subsection \<open>json.dump with indent=4\<close>

text \<open>
  The encoder with its defaults. An integer is written in decimal, \<open>True\<close> and
  \<open>False\<close> as \<open>true\<close> and \<open>false\<close>. In a string (\<open>ensure_ascii\<close>) the quote,
  the backslash and every character outside the printable ASCII range are escaped, by
  the short escapes where there is one and by four lower-case hexadecimal digits
  otherwise. With an indent, every item of a list or dictionary starts a line of its own,
  indented by four spaces per level; the items are separated by a comma, a key from its
  value by a colon and a space; an empty list is \<open>[]\<close>.
\<close>

definition digit_char :: "nat \<Rightarrow> char" where
  "digit_char d = char_of (48 + d)"

fun nat_repr :: "nat \<Rightarrow> string" where
  "nat_repr n = (if n < 10 then [digit_char n] else nat_repr (n div 10) @ [digit_char (n mod 10)])"

declare nat_repr.simps [simp del]

definition int_repr :: "int \<Rightarrow> string" where
  "int_repr i = (if i < 0 then CHR ''-'' # nat_repr (nat (- i)) else nat_repr (nat i))"

definition hex_char :: "nat \<Rightarrow> char" where
  "hex_char d = (if d < 10 then char_of (48 + d) else char_of (87 + d))"

definition escape_char :: "char \<Rightarrow> string" where
  "escape_char c =
     (let n = (of_char c :: nat)
      in if c = CHR 0x22 then [CHR 0x5C, CHR 0x22]
         else if c = CHR 0x5C then [CHR 0x5C, CHR 0x5C]
         else if c = CHR 0x0A then [CHR 0x5C, CHR ''n'']
         else if c = CHR 0x0D then [CHR 0x5C, CHR ''r'']
         else if c = CHR 0x09 then [CHR 0x5C, CHR ''t'']
         else if c = CHR 0x08 then [CHR 0x5C, CHR ''b'']
         else if c = CHR 0x0C then [CHR 0x5C, CHR ''f'']
         else if 32 \<le> n \<and> n \<le> 126 then [c]
         else [CHR 0x5C, CHR ''u'', hex_char (n div 4096 mod 16), hex_char (n div 256 mod 16),
               hex_char (n div 16 mod 16), hex_char (n mod 16)])"

definition encode_basestring_ascii :: "string \<Rightarrow> string" where
  "encode_basestring_ascii s = CHR 0x22 # concat (map escape_char s) @ [CHR 0x22]"

definition newline_indent :: "nat \<Rightarrow> string" where
  "newline_indent level = CHR 0x0A # replicate (4 * level) CHR '' ''"

fun join :: "string \<Rightarrow> string list \<Rightarrow> string" where
  "join sep [] = []"
| "join sep [x] = x"
| "join sep (x # y # ys) = x @ sep @ join sep (y # ys)"

definition iterencode_list :: "nat \<Rightarrow> string list \<Rightarrow> string" where
  "iterencode_list level items =
     (if items = [] then ''[]''
      else ''['' @ newline_indent (level + 1)
           @ join ('','' @ newline_indent (level + 1)) items
           @ newline_indent level @ '']'')"

definition iterencode_dict :: "nat \<Rightarrow> (string \<times> string) list \<Rightarrow> string" where
  "iterencode_dict level pairs =
     (if pairs = [] then ''{}''
      else ''{'' @ newline_indent (level + 1)
           @ join ('','' @ newline_indent (level + 1))
               (map (\<lambda>(k, v). encode_basestring_ascii k @ '': '' @ v) pairs)
           @ newline_indent level @ ''}'')"

definition encode_book :: "nat \<Rightarrow> book \<Rightarrow> string" where
  "encode_book level bk =
     iterencode_dict level
       [(''title'', encode_basestring_ascii (title bk)),
        (''author'', encode_basestring_ascii (author bk)),
        (''publication_year'', int_repr (publication_year bk)),
        (''genre'', encode_basestring_ascii (genre bk)),
        (''read'', if read bk then ''true'' else ''false'')]"

definition json_dump :: "book list \<Rightarrow> string" where
  "json_dump library = iterencode_list 0 (map (encode_book 1) library)"

subsection \<open>json.load\<close>




































subsection \<open>Loading and saving\<close>



subsection \<open>The tokens of a saved library\<close>




section \<open>Example books\<close>

definition mk :: "string \<Rightarrow> string \<Rightarrow> bool \<Rightarrow> book" where
  "mk t a r = \<lparr>title = t, author = a, publication_year = 1965, genre = ''SF'', read = r\<rparr>"

definition shelf :: "book list" where
  "shelf = [mk ''Dune'' ''Herbert'' True, mk ''DUNE'' ''Herbert'' False,
            mk ''Dune Messiah'' ''Herbert'' False, mk ''Foundation'' ''Asimov'' True]"

definition hobbit_shelf :: "book list" where
  "hobbit_shelf = [mk ''The Hobbit'' ''Tolkien'' True, mk ''Dune'' ''Herbert'' False]"

definition stats_shelf :: "nat \<Rightarrow> nat \<Rightarrow> book list" where
  "stats_shelf r u =
     replicate r (mk ''Dune'' ''Herbert'' True) @ replicate u (mk ''Emma'' ''Austen'' False)"

section \<open>Properties of the catalogue in memory\<close>

subsection \<open>Strings\<close>

lemma lower_Nil: "lower [] = []"
  by (simp add: lower_def)

lemma str_in_Nil: "str_in [] s"
  by (cases s) simp_all

text \<open>\<open>str_in\<close> finds exactly the contiguous occurrences.\<close>

lemma str_in_iff: "str_in k s \<longleftrightarrow> (\<exists>ps ss. s = ps @ k @ ss)"
proof (induction s)
  case Nil
  then show ?case by auto
next
  case (Cons c cs)
  have "(\<exists>ps ss. c # cs = ps @ k @ ss) \<longleftrightarrow> prefix k (c # cs) \<or> (\<exists>ps ss. cs = ps @ k @ ss)"
  proof
    assume "\<exists>ps ss. c # cs = ps @ k @ ss"
    then obtain ps ss where e: "c # cs = ps @ k @ ss" by blast
    show "prefix k (c # cs) \<or> (\<exists>ps ss. cs = ps @ k @ ss)"
    proof (cases ps)
      case Nil
      with e show ?thesis by (auto simp: prefix_def)
    next
      case (Cons p ps')
      with e have "cs = ps' @ k @ ss" by simp
      then show ?thesis by blast
    qed
  next
    assume "prefix k (c # cs) \<or> (\<exists>ps ss. cs = ps @ k @ ss)"
    then show "\<exists>ps ss. c # cs = ps @ k @ ss"
    proof
      assume "prefix k (c # cs)"
      then obtain ss where "c # cs = k @ ss" by (auto simp: prefix_def)
      then have "c # cs = [] @ k @ ss" by simp
      then show ?thesis by blast
    next
      assume "\<exists>ps ss. cs = ps @ k @ ss"
      then obtain ps ss where "cs = ps @ k @ ss" by blast
      then have "c # cs = (c # ps) @ k @ ss" by simp
      then show ?thesis by blast
    qed
  qed
  with Cons show ?case by simp
qed

subsection \<open>Removing\<close>

lemma fst_remove_book: "fst (remove_book C t) = filter (\<lambda>bk. lower (title bk) \<noteq> lower t) C"
  by (simp add: remove_book_def Let_def)

lemma filter_shrinks_iff: "length (filter P xs) < length xs \<longleftrightarrow> (\<exists>x \<in> set xs. \<not> P x)"
proof
  assume "length (filter P xs) < length xs"
  then have "filter P xs \<noteq> xs" by auto
  then show "\<exists>x \<in> set xs. \<not> P x" by (auto simp: filter_id_conv)
next
  assume "\<exists>x \<in> set xs. \<not> P x"
  then show "length (filter P xs) < length xs" by (auto intro: length_filter_less)
qed

lemma count_list_filter_keep: "P x \<Longrightarrow> count_list (filter P xs) x = count_list xs x"
  by (induction xs) auto

text \<open>
  C2. \<open>remove_book\<close> leaves exactly the records whose lowercased title differs from the
  lowercased input, the whole strings compared: every record with an equal one goes,
  however many there are; a record whose title only contains the input stays; each
  record that stays keeps its contents, its multiplicity and its place relative to the
  others.
\<close>

theorem remove_book_removes_all_matches:
  "fst (remove_book C t) = filter (\<lambda>bk. lower (title bk) \<noteq> lower t) C
   \<and> subseq (fst (remove_book C t)) C
   \<and> (\<forall>bk \<in> set (fst (remove_book C t)). lower (title bk) \<noteq> lower t)
   \<and> (\<forall>bk. lower (title bk) \<noteq> lower t \<longrightarrow>
         count_list (fst (remove_book C t)) bk = count_list C bk)"
  by (simp add: fst_remove_book count_list_filter_keep)

theorem remove_book_removes_all_matches_witness:
  "fst (remove_book shelf ''dune'')
     = [mk ''Dune Messiah'' ''Herbert'' False, mk ''Foundation'' ''Asimov'' True]"
proof -
  have "filter (\<lambda>bk. lower (title bk) \<noteq> lower ''dune'') shelf
          = [mk ''Dune Messiah'' ''Herbert'' False, mk ''Foundation'' ''Asimov'' True]"
    by code_simp
  with conjunct1 [OF remove_book_removes_all_matches [of shelf "''dune''"]]
  show ?thesis by (rule trans)
qed

text \<open>
  C7. \<open>remove_book\<close> shows the success message when some record's title equals the
  input without regard to case, which is when the list got shorter, and the warning
  otherwise. Both texts name the input only, never a count.
\<close>

theorem remove_book_signal:
  "snd (remove_book C t) =
     (if \<exists>bk \<in> set C. lower (title bk) = lower t
      then [Success (''Removed '' @ quoted t @ '' from the library.'')]
      else [Warning (''No book found with the title '' @ quoted t @ ''.'')])
   \<and> ((\<exists>bk \<in> set C. lower (title bk) = lower t)
        \<longleftrightarrow> length (fst (remove_book C t)) < length C)"
  using filter_shrinks_iff [of "\<lambda>bk. lower (title bk) \<noteq> lower t" C]
  by (simp add: remove_book_def Let_def)

theorem remove_book_signal_witness:
  "snd (remove_book shelf ''dune'') = [Success (''Removed '' @ quoted ''dune'' @ '' from the library.'')]
   \<and> snd (remove_book shelf ''dun'') = [Warning (''No book found with the title '' @ quoted ''dun'' @ ''.'')]"
proof -
  have a: "\<exists>bk \<in> set shelf. lower (title bk) = lower ''dune''"
    by code_simp
  have b: "\<not> (\<exists>bk \<in> set shelf. lower (title bk) = lower ''dun'')"
    by code_simp
  from a conjunct1 [OF remove_book_signal [of shelf "''dune''"]]
  have "snd (remove_book shelf ''dune'')
          = [Success (''Removed '' @ quoted ''dune'' @ '' from the library.'')]"
    by (simp only: if_True)
  moreover from b conjunct1 [OF remove_book_signal [of shelf "''dun''"]]
  have "snd (remove_book shelf ''dun'')
          = [Warning (''No book found with the title '' @ quoted ''dun'' @ ''.'')]"
    by (simp only: if_False)
  ultimately show ?thesis by (rule conjI)
qed

text \<open>
  C10. Removing the same title a second time changes nothing and shows the warning.
\<close>

theorem remove_book_idempotent:
  "remove_book (fst (remove_book C t)) t =
     (fst (remove_book C t), [Warning (''No book found with the title '' @ quoted t @ ''.'')])"
  by (simp add: remove_book_def Let_def)

subsection \<open>Searching\<close>

text \<open>
  C3. \<open>search_books\<close> returns the records whose lowercased title or lowercased author
  contains the lowercased keyword as a contiguous block, in the order of the list, and
  leaves the list as it was.
\<close>

theorem search_books_exact:
  "search_books C k =
     (filter (\<lambda>bk. (\<exists>ps ss. lower (title bk) = ps @ lower k @ ss)
                 \<or> (\<exists>ps ss. lower (author bk) = ps @ lower k @ ss)) C,
      C)
   \<and> subseq (fst (search_books C k)) C"
  by (simp add: search_books_def Let_def str_in_iff)

theorem search_books_exact_witness:
  "search_books hobbit_shelf ''tol'' = ([mk ''The Hobbit'' ''Tolkien'' True], hobbit_shelf)
   \<and> subseq [mk ''The Hobbit'' ''Tolkien'' True] hobbit_shelf"
proof -
  have e: "search_books hobbit_shelf ''tol'' = ([mk ''The Hobbit'' ''Tolkien'' True], hobbit_shelf)"
    by code_simp
  from conjunct2 [OF search_books_exact [of hobbit_shelf "''tol''"]]
  have "subseq [mk ''The Hobbit'' ''Tolkien'' True] hobbit_shelf"
    by (simp only: e fst_conv)
  with e show ?thesis by (rule conjI)
qed

text \<open>
  C9. With the empty keyword \<open>search_books\<close> returns the whole list, unchanged.
\<close>

theorem search_books_empty_keyword: "search_books C [] = (C, C)"
  by (simp add: search_books_def Let_def lower_Nil str_in_Nil)

subsection \<open>Adding\<close>

text \<open>
  C5. \<open>add_book\<close> leaves the list one record longer: the old list, as it was, followed
  by the record built from the five values.
\<close>

theorem add_book_appends:
  "fst (add_book C t a y g r) =
     C @ [\<lparr>title = t, author = a, publication_year = y, genre = g, read = r\<rparr>]
   \<and> length (fst (add_book C t a y g r)) = Suc (length C)
   \<and> take (length C) (fst (add_book C t a y g r)) = C"
  by (simp add: add_book_def Let_def)

text \<open>
  C8. \<open>add_book\<close> has one outcome for every input: the record is appended, and the
  only message is the success message \<open>Added '<title>' to the library.\<close>, with the
  title between the quotes. An empty title and an empty author are taken like any other:
  the record is appended and the message is \<open>Added '' to the library.\<close>
\<close>

theorem add_book_total:
  "add_book C t a y g r =
     (C @ [\<lparr>title = t, author = a, publication_year = y, genre = g, read = r\<rparr>],
      [Success (''Added '' @ [CHR 0x27] @ t @ [CHR 0x27] @ '' to the library.'')])
   \<and> (\<exists>ps ss. snd (add_book C t a y g r) = [Success (ps @ t @ ss)])
   \<and> add_book C [] [] y g r =
     (C @ [\<lparr>title = [], author = [], publication_year = y, genre = g, read = r\<rparr>],
      [Success (''Added '' @ [CHR 0x27, CHR 0x27] @ '' to the library.'')])"
proof -
  have m: "add_book C t a y g r =
     (C @ [\<lparr>title = t, author = a, publication_year = y, genre = g, read = r\<rparr>],
      [Success (''Added '' @ [CHR 0x27] @ t @ [CHR 0x27] @ '' to the library.'')])" for t a
    by (simp add: add_book_def quoted_def)
  have "snd (add_book C t a y g r)
      = [Success ((''Added '' @ [CHR 0x27]) @ t @ ([CHR 0x27] @ '' to the library.''))]"
    by (simp add: m)
  then have "\<exists>ps ss. snd (add_book C t a y g r) = [Success (ps @ t @ ss)]" by blast
  with m [of t a] m [of "[]" "[]"] show ?thesis by simp
qed

subsection \<open>Statistics\<close>

lemma round_scaled_unfold:
  "0 < k \<Longrightarrow> round_scaled k x =
     (if x < 4503599627370496 then round_scaled (k - 1) (2 * x) / 2
      else of_int (round_half_even x))"
  by (cases k) simp_all

lemma floor_rat_numeral: "\<lfloor>(numeral a :: rat) / numeral b\<rfloor> = numeral a div numeral b"
  using floor_divide_of_int_eq [of "numeral a" "numeral b", where ?'a = rat] by simp

lemma round_half_even_nonneg: "0 \<le> x \<Longrightarrow> 0 \<le> round_half_even x"
  by (auto simp: round_half_even_def Let_def)

lemma round_half_even_le: "x \<le> of_int m \<Longrightarrow> round_half_even x \<le> m"
proof -
  assume a: "x \<le> of_int m"
  then have f: "\<lfloor>x\<rfloor> \<le> m" by (simp add: floor_le_iff)
  show ?thesis
  proof (cases "x = of_int \<lfloor>x\<rfloor>")
    case True
    with f show ?thesis by (simp add: round_half_even_def Let_def)
  next
    case False
    then have "of_int \<lfloor>x\<rfloor> < x" using of_int_floor_le [of x] by linarith
    with a have "(of_int \<lfloor>x\<rfloor> :: rat) < of_int m" by linarith
    then have "\<lfloor>x\<rfloor> < m" by simp
    then show ?thesis by (auto simp: round_half_even_def Let_def)
  qed
qed

lemma round_half_even_error: "\<bar>of_int (round_half_even x) - x\<bar> \<le> 1 / 2"
proof -
  have "of_int \<lfloor>x\<rfloor> \<le> x" and "x < of_int \<lfloor>x\<rfloor> + 1" by linarith+
  then show ?thesis
    by (auto simp: round_half_even_def Let_def abs_le_iff)
qed

lemma round_scaled_nonneg: "0 \<le> x \<Longrightarrow> 0 \<le> round_scaled k x"
  by (induction k arbitrary: x) (simp_all add: round_half_even_nonneg)

lemma round_scaled_le: "x \<le> of_int m \<Longrightarrow> round_scaled k x \<le> of_int m"
proof (induction k arbitrary: x m)
  case 0
  then show ?case by (simp add: round_half_even_le)
next
  case (Suc k)
  from Suc.prems have "2 * x \<le> of_int (2 * m)" by simp
  from Suc.IH [OF this] have "round_scaled k (2 * x) / 2 \<le> of_int m" by simp
  with Suc.prems show ?case by (simp add: round_half_even_le)
qed

lemma round_scaled_error:
  "0 \<le> x \<Longrightarrow> d \<le> k \<Longrightarrow> x * 2 ^ d \<le> 4503599627370496
     \<Longrightarrow> \<bar>round_scaled k x - x\<bar> \<le> 1 / 2 ^ (d + 1)"
proof (induction d arbitrary: k x)
  case 0
  show ?case
  proof (induction k arbitrary: x)
    case 0
    then show ?case using round_half_even_error [of x] by simp
  next
    case (Suc k)
    have "\<bar>round_scaled k (2 * x) / 2 - x\<bar> = \<bar>round_scaled k (2 * x) - 2 * x\<bar> / 2"
      by (simp add: field_simps abs_if)
    also have "\<dots> \<le> (1 / 2) / 2" using Suc [of "2 * x"] by simp
    finally have "\<bar>round_scaled k (2 * x) / 2 - x\<bar> \<le> 1 / 2" by simp
    then show ?case using round_half_even_error [of x] by simp
  qed
next
  case (Suc d)
  from Suc.prems(2) obtain k' where k: "k = Suc k'" and dk: "d \<le> k'"
    by (cases k) auto
  have lt: "x < 4503599627370496"
  proof (rule ccontr)
    assume "\<not> x < 4503599627370496"
    then have "4503599627370496 \<le> x" by simp
    moreover have "(2::rat) \<le> 2 ^ Suc d" by (simp add: self_le_power)
    ultimately have "4503599627370496 * 2 \<le> x * 2 ^ Suc d"
      by (intro mult_mono) simp_all
    with Suc.prems(3) show False by simp
  qed
  from Suc.prems have "0 \<le> 2 * x" and "2 * x * 2 ^ d \<le> 4503599627370496"
    by (simp_all add: mult.assoc mult.left_commute)
  from Suc.IH [OF this(1) dk this(2)]
  have "\<bar>round_scaled k' (2 * x) - 2 * x\<bar> \<le> 1 / 2 ^ (d + 1)" .
  moreover have "\<bar>round_scaled k' (2 * x) / 2 - x\<bar> = \<bar>round_scaled k' (2 * x) - 2 * x\<bar> / 2"
    by (simp add: field_simps abs_if)
  ultimately have "\<bar>round_scaled k' (2 * x) / 2 - x\<bar> \<le> 1 / 2 ^ (Suc d + 1)"
    by (simp add: field_simps)
  with k lt show ?case by simp
qed

lemma round_double_small:
  assumes "0 \<le> x" and "x < 9007199254740992"
  shows "round_double x = round_scaled 1074 x"
proof -
  from assms have "\<bar>x\<bar> = x" and "\<bar>x\<bar> < 9007199254740992" and "\<not> x < 0" by simp_all
  then show ?thesis by (simp only: round_double_def Let_def if_True if_False)
qed

lemma round_double_range:
  assumes "0 \<le> x" and "x \<le> of_int m" and "m \<le> 100"
  shows "0 \<le> round_double x \<and> round_double x \<le> of_int m"
proof -
  from assms(3) have "(of_int m :: rat) \<le> 100" by simp
  with assms(2) have "x < 9007199254740992" by simp
  from round_double_small [OF assms(1) this] round_scaled_nonneg [OF assms(1), of 1074]
    round_scaled_le [OF assms(2), of 1074]
  show ?thesis by (simp only:)
qed

lemma round_double_error:
  assumes "0 \<le> x" and "x * 2 ^ d \<le> 4503599627370496" and "d \<le> 52"
  shows "\<bar>round_double x - x\<bar> \<le> 1 / 2 ^ (d + 1)"
proof -
  have "(1::rat) \<le> 2 ^ d" by simp
  with assms(1) have "x * 1 \<le> x * 2 ^ d" by (intro mult_left_mono)
  with assms(2) have "x < 9007199254740992" by simp
  from assms(3) have "d \<le> 1074" by simp
  from round_scaled_error [OF assms(1) this assms(2)]
    round_double_small [OF assms(1) \<open>x < 9007199254740992\<close>]
  show ?thesis by (simp only:)
qed

lemma read_count_le: "length (filter read C) \<le> length C"
  by simp

text \<open>The quotient and the percentage of a library that is not empty.\<close>

lemma percent_read_bounds:
  fixes r n :: nat
  assumes "r \<le> n" and "0 < n"
  shows "0 \<le> round_double (round_double (of_nat r / of_nat n) * 100)"
    and "round_double (round_double (of_nat r / of_nat n) * 100) \<le> 100"
    and "\<bar>round_double (round_double (of_nat r / of_nat n) * 100) - 100 * of_nat r / of_nat n\<bar>
           \<le> 1 / 2 ^ 45"
proof -
  let ?q = "of_nat r / of_nat n :: rat"
  let ?a = "round_double ?q"
  let ?p = "round_double (?a * 100)"
  from assms have q0: "0 \<le> ?q" and q1: "?q \<le> 1" by simp_all
  from q1 have q1': "?q \<le> of_int 1" by simp
  from round_double_range [OF q0 q1'] have a0: "0 \<le> ?a" and a1: "?a \<le> 1" by simp_all
  from a0 have y0: "0 \<le> ?a * 100" by simp
  from a1 have y1: "?a * 100 \<le> of_int 100" by simp
  from round_double_range [OF y0 y1] show "0 \<le> ?p" and "?p \<le> 100" by simp_all
  have "?q * 2 ^ 52 \<le> 1 * 2 ^ 52" by (intro mult_right_mono q1) simp
  then have "?q * 2 ^ 52 \<le> 4503599627370496" by simp
  from round_double_error [OF q0 this] have ea: "\<bar>?a - ?q\<bar> \<le> 1 / 2 ^ 53" by simp
  have "?a * (100 * 2 ^ 45) \<le> 1 * (100 * 2 ^ 45)" by (intro mult_right_mono a1) simp
  then have "?a * 100 * 2 ^ 45 \<le> 4503599627370496" by simp
  from round_double_error [OF y0 this] have ep: "\<bar>?p - ?a * 100\<bar> \<le> 1 / 2 ^ 46" by simp
  have "\<bar>?p - 100 * ?q\<bar> \<le> \<bar>?p - ?a * 100\<bar> + 100 * \<bar>?a - ?q\<bar>"
    by (simp add: abs_if split: if_splits)
  also from ea ep have "\<dots> \<le> 1 / 2 ^ 46 + 100 * (1 / 2 ^ 53)" by (intro add_mono) simp_all
  also have "\<dots> \<le> 1 / 2 ^ 45" by simp
  finally show "\<bar>?p - 100 * of_nat r / of_nat n\<bar> \<le> 1 / 2 ^ 45" by simp
qed

lemma stats_shelf_counts:
  "length (stats_shelf r u) = r + u" "length (filter read (stats_shelf r u)) = r"
  by (simp_all add: stats_shelf_def mk_def)

text \<open>
  C4. \<open>display_statistics\<close> returns the number of records and the percentage read.
  The percentage is the integer 0 for the empty library. Otherwise it is the double that
  \<open>(read_books / total_books) * 100\<close> gives: the quotient rounded to the nearest
  double, times 100, rounded again. It lies between 0 and 100 and is within \<open>2^-45\<close>
  of the exact \<open>100 * read_books / total_books\<close>; one read book of four gives 25.
  It is not always the exact value: 7 read books of 25 give 28.000000000000004.
\<close>

theorem display_statistics_value:
  "fst (display_statistics C) = length C
   \<and> (C = [] \<longrightarrow> snd (display_statistics C) = Integer 0)
   \<and> (C \<noteq> [] \<longrightarrow>
        snd (display_statistics C) =
          Double (round_double
                    (round_double (of_nat (length (filter read C)) / of_nat (length C)) * 100))
        \<and> \<bar>number_value (snd (display_statistics C))
             - 100 * of_nat (length (filter read C)) / of_nat (length C)\<bar> \<le> 1 / 2 ^ 45)
   \<and> 0 \<le> number_value (snd (display_statistics C))
   \<and> number_value (snd (display_statistics C)) \<le> 100"
proof (cases "C = []")
  case True
  then show ?thesis by (simp add: display_statistics_def)
next
  case False
  then have n: "0 < length C" by simp
  have r: "length (filter read C) \<le> length C" by simp
  from False have s: "snd (display_statistics C) =
      Double (round_double
                (round_double (of_nat (length (filter read C)) / of_nat (length C)) * 100))"
    and f: "fst (display_statistics C) = length C"
    by (simp_all add: display_statistics_def Let_def)
  from percent_read_bounds [OF r n] s f False show ?thesis
    by (simp only: number_value.simps) simp
qed

theorem display_statistics_value_witness:
  "display_statistics (stats_shelf 1 3) = (4, Double 25)"
proof -
  have ne: "stats_shelf 1 3 \<noteq> []" by (simp add: stats_shelf_def)
  have "round_double (round_double (of_nat (length (filter read (stats_shelf 1 3)))
          / of_nat (length (stats_shelf 1 3))) * 100) = 25"
    by (simp add: stats_shelf_counts round_double_def round_scaled_unfold round_half_even_def
        Let_def floor_rat_numeral)
  with display_statistics_value [of "stats_shelf 1 3"] ne
  have "snd (display_statistics (stats_shelf 1 3)) = Double 25"
    and "fst (display_statistics (stats_shelf 1 3)) = 4"
    by (simp_all add: stats_shelf_counts)
  then show ?thesis by (simp add: prod_eq_iff)
qed

theorem display_statistics_formula_counterexample:
  "display_statistics (stats_shelf 7 18) = (25, Double (7881299347898369 / 281474976710656))
   \<and> number_value (snd (display_statistics (stats_shelf 7 18)))
       \<noteq> 100 * of_nat (length (filter read (stats_shelf 7 18)))
             / of_nat (length (stats_shelf 7 18))"
proof -
  have ne: "stats_shelf 7 18 \<noteq> []" by (simp add: stats_shelf_def)
  have "round_double (round_double (7 / 25) * 100) = 7881299347898369 / 281474976710656"
    by (simp add: round_double_def round_scaled_unfold round_half_even_def
        Let_def floor_rat_numeral)
  with ne have "display_statistics (stats_shelf 7 18)
      = (25, Double (7881299347898369 / 281474976710656))"
    by (simp add: display_statistics_def Let_def stats_shelf_counts)
  then show ?thesis by (simp add: stats_shelf_counts)
qed

section \<open>Properties of the library file\<close>

subsection \<open>Integers in decimal\<close>























subsection \<open>Strings and their escapes\<close>








subsection \<open>The tokens of a saved library\<close>



















subsection \<open>Parsing a saved library\<close>













lemma json_dump_example:
  "json_dump [mk ''Dune'' ''Herbert'' True] =
        ''['' @ [CHR 0x0A]
        @ ''    {'' @ [CHR 0x0A]
        @ ''        '' @ [CHR 0x22] @ ''title'' @ [CHR 0x22] @ '': '' @ [CHR 0x22] @ ''Dune'' @ [CHR 0x22] @ '','' @ [CHR 0x0A]
        @ ''        '' @ [CHR 0x22] @ ''author'' @ [CHR 0x22] @ '': '' @ [CHR 0x22] @ ''Herbert'' @ [CHR 0x22] @ '','' @ [CHR 0x0A]
        @ ''        '' @ [CHR 0x22] @ ''publication_year'' @ [CHR 0x22] @ '': 1965,'' @ [CHR 0x0A]
        @ ''        '' @ [CHR 0x22] @ ''genre'' @ [CHR 0x22] @ '': '' @ [CHR 0x22] @ ''SF'' @ [CHR 0x22] @ '','' @ [CHR 0x0A]
        @ ''        '' @ [CHR 0x22] @ ''read'' @ [CHR 0x22] @ '': true'' @ [CHR 0x0A]
        @ ''    }'' @ [CHR 0x0A]
        @ '']''"
  by code_simp

subsection \<open>Saving and loading\<close>






end
